theory Spec2Isabelle
  imports Main "HOL-Library.AList" "HOL-Library.Sublist"
begin

section \<open>Data model\<close>

text \<open>
  The sync engine of the add-on: \<open>doCompare\<close>, \<open>callSyncing\<close> and \<open>setSyncing\<close> of the
  sync module, and \<open>toSync\<close> / \<open>exportNotes\<close> of \<open>modules/export/api.ts\<close>.
  An exception is a value \<open>Inl e\<close> of a sum type; the message is a string.
\<close>

type_synonym error = string

text \<open>\<open>enum SyncCode\<close>, in the order of its declaration.\<close>

datatype SyncCode = UpToDate | NoteAhead | MDAhead | NeedDiff

text \<open>
  The sync record of one note, with the six fields \<open>toSync\<close> writes
  (\<open>path\<close>, \<open>filename\<close>, \<open>md5\<close>, \<open>noteMd5\<close>, \<open>lastsync\<close>, \<open>itemID\<close>).
\<close>

record SyncStatus =
  path :: string
  filename :: string
  md5 :: string
  noteMd5 :: string
  lastsync :: int
  itemID :: nat

text \<open>
  What \<open>getMDStatus\<close> returns, reduced to the fields the sync module reads:
  \<open>meta\<close> (absent when no file is found) with its \<open>version\<close>, and \<open>content\<close>.
\<close>

record MDMeta =
  version :: int

record MDStatus =
  meta :: "MDMeta option"
  content :: string

text \<open>
  A \<open>Zotero.Item\<close> that is a note: \<open>item.id\<close>, \<open>item.getNote()\<close> and \<open>item.version\<close>.
\<close>

record Item =
  item_id :: nat
  getNote :: string
  item_version :: int

text \<open>
  An entry of \<open>Zotero.Notes._editorInstances\<close>: whether its window is a dead wrapper,
  whether its document has focus, and the id of the note it edits.
\<close>

record editor =
  isDeadWrapper :: bool
  hasFocus :: bool
  editor_item :: nat

text \<open>
  The data of the host application and of the disk that the sync engine reads and its
  collaborators write: the sync-status store, the items of the library, the open note
  editors, and the Markdown files by full path (each as the status read from it).
\<close>

record host =
  syncStore :: "(nat \<times> SyncStatus) list"
  zitems :: "Item list"
  editorInstances :: "editor list"
  disk :: "(string \<times> MDStatus) list"

text \<open>
  The functions the two source files call and do not define. They are parameters of the
  model: the checksum, the localisation table, the file adapter \<open>getMDStatus\<close>, the batched
  export \<open>syncMDBatch\<close>, the import \<open>fromMD\<close>, the conflict hook \<open>onShowSyncDiff\<close>, the
  file-name chooser \<open>getMDFileName\<close> and \<open>OS.Path.join\<close>. A call that throws returns \<open>Inl\<close>.
  They act on the host data only: \<open>addon.data.sync.lock\<close> is written by \<open>callSyncing\<close> alone.
\<close>

record collab =
  Internal_md5 :: "string \<Rightarrow> string"
  getString :: "string \<Rightarrow> string"
  getMDStatus :: "host \<Rightarrow> nat \<Rightarrow> error + MDStatus"
  syncMDBatch :: "string \<Rightarrow> nat list \<Rightarrow> host \<Rightarrow> error + host"
  fromMD :: "string \<Rightarrow> nat \<Rightarrow> host \<Rightarrow> error + host"
  onShowSyncDiff :: "nat \<Rightarrow> string \<Rightarrow> host \<Rightarrow> error + host"
  getMDFileName :: "host \<Rightarrow> nat \<Rightarrow> string \<Rightarrow> string"
  Path_join :: "string \<Rightarrow> string \<Rightarrow> string"

section \<open>The sync-status store\<close>

text \<open>
  Modelled from the spec: the functions \<open>getSyncNoteIds\<close>, \<open>isSyncNote\<close>, \<open>getSyncStatus\<close>
  and \<open>updateSyncStatus\<close> of \<open>addon.api.sync\<close> are not among the source files. The spec
  describes the store as a persistent mapping from note identifier to sync record, with
  at most one record per note, a note being under sync iff a record exists for it, and a
  query for all notes currently under sync. The store is an association list, so that the
  query has an order; a lookup of a note with no record is an error.
\<close>

definition getSyncNoteIds :: "host \<Rightarrow> nat list" where
  "getSyncNoteIds h = map fst (syncStore h)"

definition isSyncNote :: "host \<Rightarrow> nat \<Rightarrow> bool" where
  "isSyncNote h noteId = (map_of (syncStore h) noteId \<noteq> None)"

definition getSyncStatus :: "host \<Rightarrow> nat \<Rightarrow> error + SyncStatus" where
  "getSyncStatus h noteId =
     (case map_of (syncStore h) noteId of
        None \<Rightarrow> Inl ''no sync record''
      | Some r \<Rightarrow> Inr r)"

definition updateSyncStatus :: "nat \<Rightarrow> SyncStatus \<Rightarrow> host \<Rightarrow> host" where
  "updateSyncStatus noteId status h = h\<lparr>syncStore := AList.update noteId status (syncStore h)\<rparr>"

section \<open>The three-way comparator\<close>

text \<open>
  \<open>doCompare\<close>: the two flags start false and are set by the three tests in the order of
  the source; the result is resolved from the flags.
\<close>

definition doCompare :: "collab \<Rightarrow> host \<Rightarrow> Item \<Rightarrow> error + SyncCode" where
  "doCompare c h noteItem =
     (case getSyncStatus h (item_id noteItem) of
        Inl e \<Rightarrow> Inl e
      | Inr syncStatus \<Rightarrow>
     (case getMDStatus c h (item_id noteItem) of
        Inl e \<Rightarrow> Inl e
      | Inr mdStatus \<Rightarrow>
     (case meta mdStatus of
        None \<Rightarrow> Inr NoteAhead
      | Some m \<Rightarrow>
          if version m < 0 then Inr NeedDiff
          else
            let mdAhead0 = False;
                noteAhead0 = False;
                md5' = Internal_md5 c (content mdStatus);
                noteMd5' = Internal_md5 c (getNote noteItem);
                mdAhead1 = (if md5' \<noteq> md5 syncStatus then True else mdAhead0);
                noteAhead1 = (if noteMd5' \<noteq> noteMd5 syncStatus then True else noteAhead0);
                noteAhead2 = (if version m \<noteq> item_version noteItem then True else noteAhead1)
            in Inr (if noteAhead2 \<and> mdAhead1 then NeedDiff
                    else if noteAhead2 then NoteAhead
                    else if mdAhead1 then MDAhead
                    else UpToDate))))"

section \<open>The orchestrator\<close>

text \<open>The options object of \<open>callSyncing\<close>.\<close>

record options =
  quiet :: bool
  skipActive :: bool
  reason :: string

text \<open>
  The calls a run makes to the comparator and to the dispatch collaborators, one
  constructor for each call site of \<open>callSyncing\<close>:
  \<open>Compare\<close> for \<open>doCompare(item)\<close>,
  \<open>ExportBatch\<close> for \<open>syncMDBatch(filepath, toExport[filepath])\<close> in the export loop,
  \<open>Import\<close> for \<open>fromMD(filepath, {noteId})\<close> and \<open>Refresh\<close> for the
  \<open>syncMDBatch(syncStatus.path, [item.id])\<close> that follows it in the import loop,
  \<open>ShowDiff\<close> for \<open>onShowSyncDiff(itemID, filepath)\<close>.
  Every call is awaited, so a call has completed when the next one is recorded.
\<close>

datatype call =
    Compare nat
  | ExportBatch string "nat list"
  | Import string nat
  | Refresh string nat
  | ShowDiff nat string

text \<open>
  The \<open>progress\<close> property of a progress line: a literal value, or the quotient
  \<open>(a / b) * 100\<close> kept as its two operands.
\<close>

datatype progressValue = Value nat | Ratio nat nat

text \<open>
  The buckets filled by the comparison pass. \<open>toExport\<close> is an object keyed by directory
  path; it is an association list in insertion order.
\<close>

record buckets =
  toExport :: "(string \<times> nat list) list"
  toImport :: "SyncStatus list"
  toDiff :: "SyncStatus list"

text \<open>
  What the run shows and logs: the \<open>ztoolkit.log\<close> calls, the progress window with its
  title and first line, the \<open>changeLine\<close> calls and the close timer. Inside the
  \<open>try\<close> block these calls are recorded as calls that return; an exception of one of
  them would be caught there like any other.
\<close>

datatype uiEvent =
    LogStart string "nat list" nat
  | LogPlan buckets
  | LogError error
  | ProgressWindow string string progressValue
  | ChangeLine string progressValue
  | StartCloseTimer nat

text \<open>
  The state a run works on: the process-wide lock \<open>addon.data.sync.lock\<close>, the
  environment \<open>addon.data.env\<close>, the host data, the calls made so far and the user
  interface events so far.
\<close>

record world =
  lock :: bool
  env :: string
  hostData :: host
  trace :: "call list"
  ui :: "uiEvent list"

text \<open>How the \<open>try\<close> block ends: it runs to its end, it returns, or it throws.\<close>

datatype completion = Completed | Returned | Thrown error

text \<open>Decimal digits of a number, as a template string prints it.\<close>

fun showNat :: "nat \<Rightarrow> string" where
  "showNat n =
     (if n < 10 then [''0123456789'' ! n]
      else showNat (n div 10) @ [''0123456789'' ! (n mod 10)])"

declare showNat.simps [simp del]

text \<open>
  \<open>Zotero.Items.get\<close> of a list of ids: the items of the library with these ids, in the
  order of the ids; an id with no item is left out. For a single id the host returns no
  item object when there is none; the import loop reads \<open>item.id\<close> of the result, and the
  model treats the missing item as a failure of that step.
\<close>

definition Items_get1 :: "host \<Rightarrow> nat \<Rightarrow> Item option" where
  "Items_get1 h i = find (\<lambda>item. item_id item = i) (zitems h)"

definition Items_get :: "host \<Rightarrow> nat list \<Rightarrow> Item list" where
  "Items_get h ids = List.map_filter (Items_get1 h) ids"

text \<open>Lines 49 to 53: the input list, or all notes under sync when it is empty.\<close>

definition resolveItems :: "host \<Rightarrow> Item list \<Rightarrow> Item list" where
  "resolveItems h items =
     (if items = [] then Items_get h (getSyncNoteIds h)
      else filter (\<lambda>item. isSyncNote h (item_id item)) items)"

text \<open>Lines 60 to 69: the notes of the live, focused editors, and the items without them.\<close>

definition activeNoteIds :: "host \<Rightarrow> nat list" where
  "activeNoteIds h =
     map editor_item
       (filter (\<lambda>editor. \<not> isDeadWrapper editor \<and> hasFocus editor) (editorInstances h))"

definition filteredItems :: "host \<Rightarrow> Item list \<Rightarrow> Item list" where
  "filteredItems h items = filter (\<lambda>item. item_id item \<notin> set (activeNoteIds h)) items"

definition changeLine :: "bool \<Rightarrow> string \<Rightarrow> progressValue \<Rightarrow> world \<Rightarrow> world" where
  "changeLine progress txt p w = (if progress then w\<lparr>ui := ui w @ [ChangeLine txt p]\<rparr> else w)"

definition record_call :: "call \<Rightarrow> world \<Rightarrow> world" where
  "record_call e w = w\<lparr>trace := trace w @ [e]\<rparr>"

text \<open>Lines 100 to 115: the \<open>switch\<close> on the compare result.\<close>

definition addResult :: "SyncCode \<Rightarrow> string \<Rightarrow> nat \<Rightarrow> SyncStatus \<Rightarrow> buckets \<Rightarrow> buckets" where
  "addResult compareResult filepath itemId syncStatus b =
     (case compareResult of
        NoteAhead \<Rightarrow>
          (if filepath \<in> set (map fst (toExport b))
           then b\<lparr>toExport := AList.map_entry filepath (\<lambda>ids. ids @ [itemId]) (toExport b)\<rparr>
           else b\<lparr>toExport := toExport b @ [(filepath, [itemId])]\<rparr>)
      | MDAhead \<Rightarrow> b\<lparr>toImport := toImport b @ [syncStatus]\<rparr>
      | NeedDiff \<Rightarrow> b\<lparr>toDiff := toDiff b @ [syncStatus]\<rparr>
      | UpToDate \<Rightarrow> b)"

text \<open>
  Lines 95 to 123, the comparison pass. \<open>len\<close> is \<open>items.length\<close> and \<open>i\<close> the counter.
\<close>

fun compareLoop ::
  "collab \<Rightarrow> bool \<Rightarrow> nat \<Rightarrow> nat \<Rightarrow> Item list \<Rightarrow> buckets \<Rightarrow> world \<Rightarrow> (error + buckets) \<times> world" where
  "compareLoop c progress len i [] b w = (Inr b, w)"
| "compareLoop c progress len i (item # rest) b w =
     (case getSyncStatus (hostData w) (item_id item) of
        Inl e \<Rightarrow> (Inl e, w)
      | Inr syncStatus \<Rightarrow>
          let filepath = path syncStatus;
              w1 = record_call (Compare (item_id item)) w
          in (case doCompare c (hostData w1) item of
                Inl e \<Rightarrow> (Inl e, w1)
              | Inr compareResult \<Rightarrow>
                  let b' = addResult compareResult filepath (item_id item) syncStatus b;
                      w2 = changeLine progress
                             (''['' @ getString c ''sync.running.hint.check'' @ ''] ''
                                @ showNat i @ ''/'' @ showNat len @ '' ...'')
                             (Ratio (i - 1) len) w1
                  in compareLoop c progress len (i + 1) rest b' w2))"

text \<open>Lines 127 to 136, the export loop over the keys of \<open>toExport\<close>.\<close>

fun exportLoop ::
  "collab \<Rightarrow> bool \<Rightarrow> nat \<Rightarrow> nat \<Rightarrow> (string \<times> nat list) list \<Rightarrow> world \<Rightarrow> error option \<times> world" where
  "exportLoop c progress len i [] w = (None, w)"
| "exportLoop c progress len i ((filepath, ids) # rest) w =
     (let w1 = changeLine progress
                 (''['' @ getString c ''sync.running.hint.updateMD'' @ ''] ''
                    @ showNat i @ ''/'' @ showNat len @ '' ...'')
                 (Ratio (i - 1) len) w;
          w2 = record_call (ExportBatch filepath ids) w1
      in case syncMDBatch c filepath ids (hostData w2) of
           Inl e \<Rightarrow> (Some e, w2)
         | Inr h \<Rightarrow> exportLoop c progress len (i + 1) rest (w2\<lparr>hostData := h\<rparr>))"

text \<open>
  Lines 139 to 152, the import loop: \<open>fromMD\<close>, then \<open>syncMDBatch\<close> on the one note to
  keep the metadata of the file in step.
\<close>

fun importLoop ::
  "collab \<Rightarrow> bool \<Rightarrow> nat \<Rightarrow> nat \<Rightarrow> nat \<Rightarrow> SyncStatus list \<Rightarrow> world \<Rightarrow> error option \<times> world" where
  "importLoop c progress totalCount queuing i [] w = (None, w)"
| "importLoop c progress totalCount queuing i (syncStatus # rest) w =
     (let w1 = changeLine progress
                 (''['' @ getString c ''sync.running.hint.updateNote'' @ ''] ''
                    @ showNat i @ ''/'' @ showNat totalCount @ '', ''
                    @ showNat queuing @ '' queuing...'')
                 (Ratio (i - 1) totalCount) w
      in case Items_get1 (hostData w1) (itemID syncStatus) of
           None \<Rightarrow> (Some ''item is undefined'', w1)
         | Some item \<Rightarrow>
             let filepath = Path_join c (path syncStatus) (filename syncStatus);
                 w2 = record_call (Import filepath (item_id item)) w1
             in (case fromMD c filepath (item_id item) (hostData w2) of
                   Inl e \<Rightarrow> (Some e, w2)
                 | Inr h \<Rightarrow>
                     let w3 = record_call (Refresh (path syncStatus) (item_id item))
                                (w2\<lparr>hostData := h\<rparr>)
                     in (case syncMDBatch c (path syncStatus) [item_id item] (hostData w3) of
                           Inl e \<Rightarrow> (Some e, w3)
                         | Inr h' \<Rightarrow>
                             importLoop c progress totalCount queuing (i + 1) rest
                               (w3\<lparr>hostData := h'\<rparr>))))"

text \<open>Lines 155 to 166, the conflict loop.\<close>

fun diffLoop ::
  "collab \<Rightarrow> bool \<Rightarrow> nat \<Rightarrow> nat \<Rightarrow> SyncStatus list \<Rightarrow> world \<Rightarrow> error option \<times> world" where
  "diffLoop c progress totalCount i [] w = (None, w)"
| "diffLoop c progress totalCount i (syncStatus # rest) w =
     (let w1 = changeLine progress
                 (''['' @ getString c ''sync.running.hint.diff'' @ ''] ''
                    @ showNat i @ ''/'' @ showNat totalCount @ ''...'')
                 (Ratio (i - 1) totalCount) w;
          filepath = Path_join c (path syncStatus) (filename syncStatus);
          w2 = record_call (ShowDiff (itemID syncStatus) filepath) w1
      in case onShowSyncDiff c (itemID syncStatus) filepath (hostData w2) of
           Inl e \<Rightarrow> (Some e, w2)
         | Inr h \<Rightarrow> diffLoop c progress totalCount (i + 1) rest (w2\<lparr>hostData := h\<rparr>))"

text \<open>Lines 167 to 179, the last progress line.\<close>

definition finishText :: "collab \<Rightarrow> nat \<Rightarrow> nat \<Rightarrow> string" where
  "finishText c syncCount skippedCount =
     (if syncCount \<noteq> 0
      then ''['' @ getString c ''sync.running.hint.finish'' @ ''] '' @ showNat syncCount
             @ '' '' @ getString c ''sync.running.hint.synced''
      else ''['' @ getString c ''sync.running.hint.finish'' @ ''] ''
             @ getString c ''sync.running.hint.upToDate'')
     @ (if skippedCount \<noteq> 0 then '', '' @ showNat skippedCount @ '' skipped.'' else [])"

text \<open>
  Lines 73 to 179: what the \<open>try\<close> block does once the item list is final. The result
  carries whether the progress window exists, for the \<open>finally\<close> block.
\<close>

definition runPasses ::
  "collab \<Rightarrow> options \<Rightarrow> Item list \<Rightarrow> nat \<Rightarrow> world \<Rightarrow> completion \<times> bool \<times> world" where
  "runPasses c opts items skippedCount w =
     (let w1 = w\<lparr>ui := ui w @ [LogStart (reason opts) (map item_id items) skippedCount]\<rparr>;
          progress = (\<not> quiet opts);
          w2 = (if progress
                then w1\<lparr>ui := ui w1 @
                       [ProgressWindow
                          (''['' @ getString c ''sync.running.hint.title'' @ ''] ''
                             @ (if env w1 = ''development'' then reason opts else ''Better Notes''))
                          (''['' @ getString c ''sync.running.hint.check'' @ ''] 0/''
                             @ showNat (length items) @ '' ...'')
                          (Value 1)]\<rparr>
                else w1)
      in case compareLoop c progress (length items) 1 items
                \<lparr>toExport = [], toImport = [], toDiff = []\<rparr> w2 of
           (Inl e, w3) \<Rightarrow> (Thrown e, progress, w3)
         | (Inr b, w3) \<Rightarrow>
             let w4 = w3\<lparr>ui := ui w3 @ [LogPlan b]\<rparr>
             in (case exportLoop c progress (length items) 1 (toExport b) w4 of
                   (Some e, w5) \<Rightarrow> (Thrown e, progress, w5)
                 | (None, w5) \<Rightarrow>
                (case importLoop c progress (length (toImport b)) (length (toDiff b)) 1
                        (toImport b) w5 of
                   (Some e, w6) \<Rightarrow> (Thrown e, progress, w6)
                 | (None, w6) \<Rightarrow>
                (case diffLoop c progress (length (toDiff b)) 1 (toDiff b) w6 of
                   (Some e, w7) \<Rightarrow> (Thrown e, progress, w7)
                 | (None, w7) \<Rightarrow>
                     let syncCount = length (toExport b) + length (toImport b) + length (toDiff b)
                     in (Completed, progress,
                         changeLine progress (finishText c syncCount skippedCount) (Value 100) w7)))))"

text \<open>Lines 47 to 72: the lock is taken, the items are resolved and filtered.\<close>

definition tryBody ::
  "collab \<Rightarrow> Item list \<Rightarrow> options \<Rightarrow> world \<Rightarrow> completion \<times> bool \<times> world" where
  "tryBody c items0 opts w0 =
     (let w1 = w0\<lparr>lock := True\<rparr>;
          items1 = resolveItems (hostData w1) items0
      in if length items1 = 0 then (Returned, False, w1\<lparr>lock := False\<rparr>)
         else if skipActive opts
           then let items2 = filteredItems (hostData w1) items1
                in runPasses c opts items2 (length items1 - length items2) w1
           else runPasses c opts items1 0 w1)"

text \<open>
  \<open>callSyncing\<close>. The result is \<open>Inr ()\<close> when the call returns and \<open>Inl e\<close> when an
  exception leaves it. The \<open>catch\<close> block logs the exception, the \<open>finally\<close> block starts
  the close timer of the progress window if there is one, and the statement after them
  clears the lock unless the \<open>try\<close> block has returned. Here the log call of the
  \<open>catch\<close> block and the close timer return; \<open>callSyncing_handlers\<close> below is the
  function when they may throw.
\<close>

definition callSyncing ::
  "collab \<Rightarrow> Item list \<Rightarrow> options \<Rightarrow> world \<Rightarrow> (error + unit) \<times> world" where
  "callSyncing c items opts w =
     (let quiet' = (if env w = ''development'' then False else quiet opts)
      in if lock w then (Inr (), w)
         else
           (case tryBody c items (opts\<lparr>quiet := quiet'\<rparr>) w of
              (r, progress, w1) \<Rightarrow>
                let (r', w2) = (case r of
                                  Thrown e \<Rightarrow> (Completed, w1\<lparr>ui := ui w1 @ [LogError e]\<rparr>)
                                | Completed \<Rightarrow> (Completed, w1)
                                | Returned \<Rightarrow> (Returned, w1));
                    w3 = (if progress then w2\<lparr>ui := ui w2 @ [StartCloseTimer 5000]\<rparr> else w2)
                in (case r' of
                      Thrown e \<Rightarrow> (Inl e, w3)
                    | Returned \<Rightarrow> (Inr (), w3)
                    | Completed \<Rightarrow> (Inr (), w3\<lparr>lock := False\<rparr>))))"

text \<open>
  The same function with the two calls that run outside the \<open>try\<close> block made explicit:
  \<open>ztoolkit.log(e)\<close> of the \<open>catch\<close> block (line 181) and
  \<open>progress?.startCloseTimer(5000)\<close> of the \<open>finally\<close> block (line 184). Each is given
  by the exception it throws, if any. An exception thrown in the \<open>catch\<close> block leaves the
  function once the \<open>finally\<close> block has run; an exception thrown in the \<open>finally\<close> block
  replaces the pending return or exception. In both cases line 186, which clears the
  lock, is not reached. \<open>callSyncing\<close> is the case where both calls return.
\<close>

definition callSyncing_handlers ::
  "(error \<Rightarrow> error option) \<Rightarrow> (nat \<Rightarrow> error option) \<Rightarrow>
     collab \<Rightarrow> Item list \<Rightarrow> options \<Rightarrow> world \<Rightarrow> (error + unit) \<times> world" where
  "callSyncing_handlers logThrows closeTimerThrows c items opts w =
     (let quiet' = (if env w = ''development'' then False else quiet opts)
      in if lock w then (Inr (), w)
         else
           (case tryBody c items (opts\<lparr>quiet := quiet'\<rparr>) w of
              (r, progress, w1) \<Rightarrow>
                let (r', w2) = (case r of
                                  Thrown e \<Rightarrow>
                                    (case logThrows e of
                                       None \<Rightarrow> (Completed, w1\<lparr>ui := ui w1 @ [LogError e]\<rparr>)
                                     | Some e' \<Rightarrow> (Thrown e', w1))
                                | Completed \<Rightarrow> (Completed, w1)
                                | Returned \<Rightarrow> (Returned, w1));
                    (r'', w3) = (if progress
                                 then (case closeTimerThrows 5000 of
                                         None \<Rightarrow> (r', w2\<lparr>ui := ui w2 @ [StartCloseTimer 5000]\<rparr>)
                                       | Some e' \<Rightarrow> (Thrown e', w2))
                                 else (r', w2))
                in (case r'' of
                      Thrown e \<Rightarrow> (Inl e, w3)
                    | Returned \<Rightarrow> (Inr (), w3)
                    | Completed \<Rightarrow> (Inr (), w3\<lparr>lock := False\<rparr>))))"

text \<open>
  The item list the passes run on (the value of \<open>items\<close> at line 73): the resolved
  list, without the notes of the active editors when \<open>skipActive\<close> is set.
\<close>

definition candidateItems :: "host \<Rightarrow> Item list \<Rightarrow> options \<Rightarrow> Item list" where
  "candidateItems h items opts =
     (let items1 = resolveItems h items
      in if skipActive opts then filteredItems h items1 else items1)"

text \<open>
  The pass a call belongs to: comparison, export, import (with the refresh of the file
  that closes each import), conflict resolution.
\<close>

fun phase :: "call \<Rightarrow> nat" where
  "phase (Compare _) = 0"
| "phase (ExportBatch _ _) = 1"
| "phase (Import _ _) = 2"
| "phase (Refresh _ _) = 2"
| "phase (ShowDiff _ _) = 3"

section \<open>The scheduler\<close>

text \<open>
  What \<open>setSyncing\<close> and its timer callback read and write: \<open>addon.data.alive\<close>,
  \<open>document.hasFocus()\<close>, the preference \<open>syncPeriodSeconds\<close>, the interval timer (its
  period in milliseconds while it is installed), the hints shown, and the options of the
  \<open>callSyncing\<close> calls issued (each with \<open>undefined\<close> for the items).
\<close>

record scheduler =
  alive :: bool
  document_hasFocus :: bool
  syncPeriodSeconds :: int
  timer :: "int option"
  hints :: "string list"
  syncCalls :: "options list"

definition setSyncing :: "collab \<Rightarrow> scheduler \<Rightarrow> scheduler" where
  "setSyncing c s =
     (let syncPeriod = syncPeriodSeconds s
      in if syncPeriod > 0
         then s\<lparr>hints := hints s @
                  [getString c ''sync.start.hint'' @ '' '' @ showNat (nat syncPeriod) @ '' s''],
                timer := Some (syncPeriod * 1000)\<rparr>
         else s)"

text \<open>
  The callback given to \<open>setInterval\<close> (lines 11 to 23): the first \<open>if\<close> shows the stop
  hint and clears the interval; the second \<open>if\<close> follows it in sequence.
\<close>

definition timerCallback :: "collab \<Rightarrow> scheduler \<Rightarrow> scheduler" where
  "timerCallback c s =
     (let s1 = (if \<not> alive s
                then s\<lparr>hints := hints s @ [getString c ''sync.stop.hint''], timer := None\<rparr>
                else s)
      in if document_hasFocus s1 \<and> syncPeriodSeconds s1 > 0
         then s1\<lparr>syncCalls := syncCalls s1 @
                   [\<lparr>quiet = True, skipActive = True, reason = ''auto''\<rparr>]\<rparr>
         else s1)"

text \<open>A tick of the clock: the callback runs only while the interval is installed.\<close>

definition tick :: "collab \<Rightarrow> scheduler \<Rightarrow> scheduler" where
  "tick c s = (case timer s of None \<Rightarrow> s | Some period \<Rightarrow> timerCallback c s)"

section \<open>Enrolling notes into sync\<close>

text \<open>\<open>toSync\<close> of \<open>modules/export/api.ts\<close>.\<close>

definition toSync :: "collab \<Rightarrow> Item \<Rightarrow> string \<Rightarrow> bool \<Rightarrow> host \<Rightarrow> host" where
  "toSync c noteItem syncDir overwrite h =
     (if \<not> overwrite \<and> isSyncNote h (item_id noteItem) then h
      else updateSyncStatus (item_id noteItem)
             \<lparr>path = syncDir,
              filename = getMDFileName c h (item_id noteItem) syncDir,
              md5 = [],
              noteMd5 = Internal_md5 c (getNote noteItem),
              lastsync = 0,
              itemID = item_id noteItem\<rparr> h)"

text \<open>
  \<open>exportNotes\<close>, lines 50 to 64: the linked notes. \<open>linkedNoteIds\<close> is the list the
  loop over \<open>getLinkedNotesRecursively\<close> has collected; the ids of the input notes are
  taken out of it.
\<close>

definition linkedNoteItems :: "host \<Rightarrow> bool \<Rightarrow> Item list \<Rightarrow> nat list \<Rightarrow> Item list" where
  "linkedNoteItems h standaloneLink inputNoteItems linkedNoteIds =
     (if standaloneLink
      then let targetNoteItemIds = map item_id inputNoteItems
           in Items_get h (filter (\<lambda>i. i \<notin> set targetNoteItemIds) linkedNoteIds)
      else [])"

text \<open>
  \<open>exportNotes\<close> with \<open>exportMD\<close> and \<open>setAutoSync\<close> set and a folder picked, lines 76
  to 85: the input notes are the notes given (no copies are made when \<open>setAutoSync\<close> is
  set), each is enrolled with \<open>overwrite = true\<close>, then each linked note with
  \<open>overwrite = false\<close>. The call of \<open>addon.hooks.onSyncing\<close> that follows is not part of
  this function.
\<close>

definition exportNotes_enrol ::
  "collab \<Rightarrow> Item list \<Rightarrow> bool \<Rightarrow> nat list \<Rightarrow> string \<Rightarrow> host \<Rightarrow> host" where
  "exportNotes_enrol c inputNoteItems standaloneLink linkedNoteIds syncDir h =
     (let linked = linkedNoteItems h standaloneLink inputNoteItems linkedNoteIds;
          h1 = fold (\<lambda>noteItem. toSync c noteItem syncDir True) inputNoteItems h
      in fold (\<lambda>noteItem. toSync c noteItem syncDir False) linked h1)"

text \<open>A record as a hard reset leaves it: in the chosen directory, with no file checksum
  and no last sync.\<close>

definition resetRecord :: "string \<Rightarrow> nat \<Rightarrow> SyncStatus \<Rightarrow> bool" where
  "resetRecord syncDir noteId r \<longleftrightarrow>
     path r = syncDir \<and> md5 r = [] \<and> lastsync r = 0 \<and> itemID r = noteId"

section \<open>Relations between the states of a run\<close>

text \<open>
  \<open>stepped k w w'\<close>: from \<open>w\<close> to \<open>w'\<close> the lock and the environment are the same, the
  trace has grown by calls of pass \<open>k\<close> only, and the interface log has grown.
  \<open>runs w w'\<close>: the same, with the new calls ordered by pass.
\<close>

definition stepped :: "nat \<Rightarrow> world \<Rightarrow> world \<Rightarrow> bool" where
  "stepped k w w' \<longleftrightarrow>
     lock w' = lock w \<and> env w' = env w
     \<and> (\<exists>es. trace w' = trace w @ es \<and> (\<forall>e\<in>set es. phase e = k))
     \<and> (\<exists>us. ui w' = ui w @ us)"

definition runs :: "world \<Rightarrow> world \<Rightarrow> bool" where
  "runs w w' \<longleftrightarrow>
     lock w' = lock w \<and> env w' = env w
     \<and> (\<exists>es. trace w' = trace w @ es \<and> sorted (map phase es))
     \<and> (\<exists>us. ui w' = ui w @ us)"

section \<open>Concrete collaborators and hosts for the instances\<close>

text \<open>
  A small concrete setting: the checksum is the identity, the file adapter reads the file
  at the recorded directory and file name from \<open>disk\<close>, and the writing collaborators leave
  the host as it is.
\<close>

definition demo_getMDStatus :: "host \<Rightarrow> nat \<Rightarrow> error + MDStatus" where
  "demo_getMDStatus h noteId =
     (case map_of (syncStore h) noteId of
        None \<Rightarrow> Inl ''no sync record''
      | Some r \<Rightarrow>
          (case map_of (disk h) (path r @ ''/'' @ filename r) of
             None \<Rightarrow> Inr \<lparr>meta = None, content = ''''\<rparr>
           | Some f \<Rightarrow> Inr f))"

definition demo_collab :: collab where
  "demo_collab =
     \<lparr>Internal_md5 = (\<lambda>s. s),
      getString = (\<lambda>k. k),
      getMDStatus = demo_getMDStatus,
      syncMDBatch = (\<lambda>dir ids h. Inr h),
      fromMD = (\<lambda>file noteId h. Inr h),
      onShowSyncDiff = (\<lambda>noteId file h. Inr h),
      getMDFileName = (\<lambda>h noteId dir. ''note.md''),
      Path_join = (\<lambda>a b. a @ ''/'' @ b)\<rparr>"

definition demo_record :: SyncStatus where
  "demo_record =
     \<lparr>path = ''d'', filename = ''a.md'', md5 = ''file'', noteMd5 = ''text'',
      lastsync = 1, itemID = 1\<rparr>"

definition demo_item :: "int \<Rightarrow> Item" where
  "demo_item v = \<lparr>item_id = 1, getNote = ''text'', item_version = v\<rparr>"

definition demo_host :: "int \<Rightarrow> host" where
  "demo_host fileVersion =
     \<lparr>syncStore = [(1, demo_record)],
      zitems = [demo_item 3],
      editorInstances = [],
      disk = [(''d/a.md'', \<lparr>meta = Some \<lparr>version = fileVersion\<rparr>, content = ''file''\<rparr>)]\<rparr>"

definition demo_world :: "string \<Rightarrow> bool \<Rightarrow> host \<Rightarrow> world" where
  "demo_world e l h = \<lparr>lock = l, env = e, hostData = h, trace = [], ui = []\<rparr>"

text \<open>The options the scheduler passes.\<close>

definition auto_options :: options where
  "auto_options = \<lparr>quiet = True, skipActive = True, reason = ''auto''\<rparr>"



text \<open>
  Three notes under sync in one directory: note 1 changed on the note side, note 2 on the
  file side, note 3 on both.
\<close>

definition demo_host3 :: host where
  "demo_host3 =
     \<lparr>syncStore =
        [(1, \<lparr>path = ''d'', filename = ''a.md'', md5 = ''fa'', noteMd5 = ''na'',
               lastsync = 1, itemID = 1\<rparr>),
         (2, \<lparr>path = ''d'', filename = ''b.md'', md5 = ''fb'', noteMd5 = ''nb'',
               lastsync = 1, itemID = 2\<rparr>),
         (3, \<lparr>path = ''d'', filename = ''c.md'', md5 = ''fc'', noteMd5 = ''nc'',
               lastsync = 1, itemID = 3\<rparr>)],
      zitems =
        [\<lparr>item_id = 1, getNote = ''na2'', item_version = 3\<rparr>,
         \<lparr>item_id = 2, getNote = ''nb'', item_version = 3\<rparr>,
         \<lparr>item_id = 3, getNote = ''nc2'', item_version = 3\<rparr>],
      editorInstances = [],
      disk =
        [(''d/a.md'', \<lparr>meta = Some \<lparr>version = 3\<rparr>, content = ''fa''\<rparr>),
         (''d/b.md'', \<lparr>meta = Some \<lparr>version = 3\<rparr>, content = ''fb2''\<rparr>),
         (''d/c.md'', \<lparr>meta = Some \<lparr>version = 3\<rparr>, content = ''fc2''\<rparr>)]\<rparr>"

text \<open>
  A scheduler whose timer is installed, after the add-on has been torn down, with the
  window focused and a period of 60 seconds.
\<close>

definition demo_scheduler :: scheduler where
  "demo_scheduler =
     \<lparr>alive = False, document_hasFocus = True, syncPeriodSeconds = 60,
      timer = Some 60000, hints = [], syncCalls = []\<rparr>"

text \<open>A note that is not under sync in \<open>demo_host\<close>.\<close>

definition demo_item2 :: Item where
  "demo_item2 = \<lparr>item_id = 2, getNote = ''two'', item_version = 1\<rparr>"






section \<open>Properties of the comparator\<close>

text \<open>
  C1. For a note under sync (record \<open>r\<close>) whose file is found (\<open>meta\<close> present) with a
  non-negative version marker, \<open>doCompare\<close> returns \<open>NeedDiff\<close> exactly when both sides are
  classified as changed, \<open>NoteAhead\<close> exactly when only the note side is, \<open>MDAhead\<close> exactly
  when only the file side is, and \<open>UpToDate\<close> exactly when neither is. The note side is
  classified as changed when the note checksum differs from the recorded one or the note's
  version differs from the file's version marker; the file side when the file checksum
  differs from the recorded one. The four outcomes exclude each other.
\<close>

theorem doCompare_resolve:
  assumes "getSyncStatus h (item_id n) = Inr r"
    and "getMDStatus c h (item_id n) = Inr st"
    and "meta st = Some m"
    and "0 \<le> version m"
  shows "let noteChanged = (Internal_md5 c (getNote n) \<noteq> noteMd5 r \<or> version m \<noteq> item_version n);
             fileChanged = (Internal_md5 c (content st) \<noteq> md5 r)
         in (doCompare c h n = Inr NeedDiff \<longleftrightarrow> noteChanged \<and> fileChanged)
          \<and> (doCompare c h n = Inr NoteAhead \<longleftrightarrow> noteChanged \<and> \<not> fileChanged)
          \<and> (doCompare c h n = Inr MDAhead \<longleftrightarrow> \<not> noteChanged \<and> fileChanged)
          \<and> (doCompare c h n = Inr UpToDate \<longleftrightarrow> \<not> noteChanged \<and> \<not> fileChanged)
          \<and> (\<exists>code. doCompare c h n = Inr code)"
  using assms by (simp add: doCompare_def Let_def)

theorem doCompare_resolve_witness:
  "getSyncStatus (demo_host 3) (item_id (demo_item 4)) = Inr demo_record
   \<and> getMDStatus demo_collab (demo_host 3) (item_id (demo_item 4))
       = Inr \<lparr>meta = Some \<lparr>version = 3\<rparr>, content = ''file''\<rparr>
   \<and> doCompare demo_collab (demo_host 3) (demo_item 4) = Inr NoteAhead"
proof -
  have a: "getSyncStatus (demo_host 3) (item_id (demo_item 4)) = Inr demo_record"
    by (simp add: getSyncStatus_def demo_host_def demo_item_def)
  have b: "getMDStatus demo_collab (demo_host 3) (item_id (demo_item 4))
       = Inr \<lparr>meta = Some \<lparr>version = 3\<rparr>, content = ''file''\<rparr>"
    by (simp add: demo_collab_def demo_getMDStatus_def demo_host_def demo_item_def demo_record_def)
  have c: "meta \<lparr>meta = Some \<lparr>version = 3\<rparr>, content = ''file''\<rparr> = Some \<lparr>version = 3\<rparr>"
    by simp
  have d: "0 \<le> version \<lparr>version = 3\<rparr>" by simp
  from doCompare_resolve [OF a b c d] a b show ?thesis
    by (simp add: Let_def demo_collab_def demo_item_def demo_record_def)
qed

text \<open>
  C5. For a note under sync whose file is found with a non-negative version marker and
  whose note checksum and file checksum both equal the recorded values, a note version
  different from the file's version marker makes \<open>doCompare\<close> return \<open>NoteAhead\<close>.
\<close>

theorem doCompare_version_mismatch:
  assumes "getSyncStatus h (item_id n) = Inr r"
    and "getMDStatus c h (item_id n) = Inr st"
    and "meta st = Some m"
    and "0 \<le> version m"
    and "Internal_md5 c (getNote n) = noteMd5 r"
    and "Internal_md5 c (content st) = md5 r"
    and "item_version n \<noteq> version m"
  shows "doCompare c h n = Inr NoteAhead"
  using assms by (auto simp add: doCompare_def Let_def)

theorem doCompare_version_mismatch_witness:
  "getSyncStatus (demo_host 5) (item_id (demo_item 7)) = Inr demo_record
   \<and> getMDStatus demo_collab (demo_host 5) (item_id (demo_item 7))
       = Inr \<lparr>meta = Some \<lparr>version = 5\<rparr>, content = ''file''\<rparr>
   \<and> Internal_md5 demo_collab (getNote (demo_item 7)) = noteMd5 demo_record
   \<and> Internal_md5 demo_collab ''file'' = md5 demo_record
   \<and> item_version (demo_item 7) \<noteq> 5
   \<and> doCompare demo_collab (demo_host 5) (demo_item 7) = Inr NoteAhead"
proof -
  have a: "getSyncStatus (demo_host 5) (item_id (demo_item 7)) = Inr demo_record"
    by (simp add: getSyncStatus_def demo_host_def demo_item_def)
  have b: "getMDStatus demo_collab (demo_host 5) (item_id (demo_item 7))
       = Inr \<lparr>meta = Some \<lparr>version = 5\<rparr>, content = ''file''\<rparr>"
    by (simp add: demo_collab_def demo_getMDStatus_def demo_host_def demo_item_def demo_record_def)
  have e: "Internal_md5 demo_collab (getNote (demo_item 7)) = noteMd5 demo_record"
    by (simp add: demo_collab_def demo_item_def demo_record_def)
  have f: "Internal_md5 demo_collab (content \<lparr>meta = Some \<lparr>version = 5\<rparr>, content = ''file''\<rparr>)
       = md5 demo_record"
    by (simp add: demo_collab_def demo_record_def)
  have g: "item_version (demo_item 7) \<noteq> version \<lparr>version = 5\<rparr>"
    by (simp add: demo_item_def)
  from doCompare_version_mismatch [OF a b _ _ e f g] a b e f g show ?thesis
    by simp
qed

text \<open>
  C6. For a note under sync whose file metadata is present with a negative version
  marker, \<open>doCompare\<close> returns \<open>NeedDiff\<close>, whatever the checksums are.
\<close>

theorem doCompare_negative_version:
  assumes "getSyncStatus h (item_id n) = Inr r"
    and "getMDStatus c h (item_id n) = Inr st"
    and "meta st = Some m"
    and "version m < 0"
  shows "doCompare c h n = Inr NeedDiff"
  using assms by (simp add: doCompare_def)

theorem doCompare_negative_version_witness:
  "getSyncStatus (demo_host (- 1)) (item_id (demo_item 3)) = Inr demo_record
   \<and> getMDStatus demo_collab (demo_host (- 1)) (item_id (demo_item 3))
       = Inr \<lparr>meta = Some \<lparr>version = - 1\<rparr>, content = ''file''\<rparr>
   \<and> Internal_md5 demo_collab (getNote (demo_item 3)) = noteMd5 demo_record
   \<and> Internal_md5 demo_collab ''file'' = md5 demo_record
   \<and> doCompare demo_collab (demo_host (- 1)) (demo_item 3) = Inr NeedDiff"
proof -
  have a: "getSyncStatus (demo_host (- 1)) (item_id (demo_item 3)) = Inr demo_record"
    by (simp add: getSyncStatus_def demo_host_def demo_item_def)
  have b: "getMDStatus demo_collab (demo_host (- 1)) (item_id (demo_item 3))
       = Inr \<lparr>meta = Some \<lparr>version = - 1\<rparr>, content = ''file''\<rparr>"
    by (simp add: demo_collab_def demo_getMDStatus_def demo_host_def demo_item_def demo_record_def)
  from doCompare_negative_version [OF a b] a b show ?thesis
    by (simp add: demo_collab_def demo_item_def demo_record_def)
qed


section \<open>Properties of the orchestrator\<close>

subsection \<open>The passes extend the trace in order\<close>

lemma stepped_refl: "stepped k w w"
  by (simp add: stepped_def)

lemma stepped_trans: "stepped k w w' \<Longrightarrow> stepped k w' w'' \<Longrightarrow> stepped k w w''"
  unfolding stepped_def by (elim conjE exE) (simp, blast)

lemma stepped_changeLine: "stepped k w (changeLine p t v w)"
  by (simp add: stepped_def changeLine_def)

lemma stepped_record_call: "phase e = k \<Longrightarrow> stepped k w (record_call e w)"
  by (simp add: stepped_def record_call_def)

lemma stepped_host: "stepped k w (w\<lparr>hostData := h\<rparr>)"
  by (simp add: stepped_def)

lemma stepped_ui: "stepped k w (w\<lparr>ui := ui w @ us\<rparr>)"
  by (simp add: stepped_def)

lemma stepped_in_ui: "stepped k w w' \<Longrightarrow> x \<in> set (ui w) \<Longrightarrow> x \<in> set (ui w')"
  by (auto simp add: stepped_def)

lemma compareLoop_stepped:
  "compareLoop c p n i items b w = (r, w') \<Longrightarrow> stepped 0 w w' \<and> hostData w' = hostData w"
proof (induction items arbitrary: i b w)
  case Nil
  then show ?case by (simp add: stepped_refl)
next
  case (Cons item rest)
  show ?case
  proof (cases "getSyncStatus (hostData w) (item_id item)")
    case (Inl e)
    with Cons.prems show ?thesis by (simp add: stepped_refl)
  next
    case (Inr st)
    let ?w1 = "record_call (Compare (item_id item)) w"
    have s1: "stepped 0 w ?w1" by (simp add: stepped_record_call)
    have h1: "hostData ?w1 = hostData w" by (simp add: record_call_def)
    show ?thesis
    proof (cases "doCompare c (hostData ?w1) item")
      case (Inl e)
      with Cons.prems Inr s1 h1 show ?thesis by (simp add: Let_def)
    next
      case (Inr code)
      let ?w2 = "changeLine p
                   (''['' @ getString c ''sync.running.hint.check'' @ ''] ''
                      @ showNat i @ ''/'' @ showNat n @ '' ...'')
                   (Ratio (i - 1) n) ?w1"
      have s2: "stepped 0 ?w1 ?w2" by (rule stepped_changeLine)
      have h2: "hostData ?w2 = hostData w" by (simp add: changeLine_def record_call_def)
      from Cons.prems \<open>getSyncStatus (hostData w) (item_id item) = Inr st\<close> Inr
      have "compareLoop c p n (i + 1) rest (addResult code (path st) (item_id item) st b) ?w2 = (r, w')"
        by (simp add: Let_def)
      from Cons.IH [OF this] have s3: "stepped 0 ?w2 w'" and h3: "hostData w' = hostData ?w2"
        by simp_all
      from stepped_trans [OF s1 stepped_trans [OF s2 s3]] h3 h2 show ?thesis by simp
    qed
  qed
qed

lemma exportLoop_stepped:
  "exportLoop c p n i xs w = (r, w') \<Longrightarrow> stepped 1 w w'"
proof (induction xs arbitrary: i w)
  case Nil
  then show ?case by (simp add: stepped_refl)
next
  case (Cons x rest)
  obtain filepath ids where x: "x = (filepath, ids)" by (cases x)
  let ?w1 = "changeLine p
                 (''['' @ getString c ''sync.running.hint.updateMD'' @ ''] ''
                    @ showNat i @ ''/'' @ showNat n @ '' ...'')
                 (Ratio (i - 1) n) w"
  let ?w2 = "record_call (ExportBatch filepath ids) ?w1"
  have s2: "stepped 1 w ?w2"
    by (rule stepped_trans [OF stepped_changeLine stepped_record_call]) simp
  show ?case
  proof (cases "syncMDBatch c filepath ids (hostData ?w2)")
    case (Inl e)
    with Cons.prems x s2 show ?thesis by (simp add: Let_def)
  next
    case (Inr h)
    with Cons.prems x have "exportLoop c p n (i + 1) rest (?w2\<lparr>hostData := h\<rparr>) = (r, w')"
      by (simp add: Let_def)
    from Cons.IH [OF this] have s3: "stepped 1 (?w2\<lparr>hostData := h\<rparr>) w'" .
    show ?thesis by (rule stepped_trans [OF s2 stepped_trans [OF stepped_host s3]])
  qed
qed

lemma importLoop_stepped:
  "importLoop c p n q i xs w = (r, w') \<Longrightarrow> stepped 2 w w'"
proof (induction xs arbitrary: i w)
  case Nil
  then show ?case by (simp add: stepped_refl)
next
  case (Cons st rest)
  let ?w1 = "changeLine p
                 (''['' @ getString c ''sync.running.hint.updateNote'' @ ''] ''
                    @ showNat i @ ''/'' @ showNat n @ '', ''
                    @ showNat q @ '' queuing...'')
                 (Ratio (i - 1) n) w"
  have s1: "stepped 2 w ?w1" by (rule stepped_changeLine)
  show ?case
  proof (cases "Items_get1 (hostData ?w1) (itemID st)")
    case None
    with Cons.prems s1 show ?thesis by (simp add: Let_def)
  next
    case (Some item)
    let ?fp = "Path_join c (path st) (filename st)"
    let ?w2 = "record_call (Import ?fp (item_id item)) ?w1"
    have s2: "stepped 2 w ?w2"
      by (rule stepped_trans [OF s1 stepped_record_call]) simp
    show ?thesis
    proof (cases "fromMD c ?fp (item_id item) (hostData ?w2)")
      case (Inl e)
      with Cons.prems Some s2 show ?thesis by (simp add: Let_def)
    next
      case (Inr h)
      let ?w3 = "record_call (Refresh (path st) (item_id item)) (?w2\<lparr>hostData := h\<rparr>)"
      have "stepped 2 (?w2\<lparr>hostData := h\<rparr>) ?w3" by (rule stepped_record_call) simp
      from stepped_trans [OF s2 stepped_trans [OF stepped_host this]]
      have s3: "stepped 2 w ?w3" .
      show ?thesis
      proof (cases "syncMDBatch c (path st) [item_id item] (hostData ?w3)")
        case (Inl e)
        with Cons.prems Some Inr s3 show ?thesis by (simp add: Let_def)
      next
        case (Inr h')
        with Cons.prems Some \<open>fromMD c ?fp (item_id item) (hostData ?w2) = Inr h\<close>
        have "importLoop c p n q (i + 1) rest (?w3\<lparr>hostData := h'\<rparr>) = (r, w')"
          by (simp add: Let_def)
        from Cons.IH [OF this] have s4: "stepped 2 (?w3\<lparr>hostData := h'\<rparr>) w'" .
        show ?thesis by (rule stepped_trans [OF s3 stepped_trans [OF stepped_host s4]])
      qed
    qed
  qed
qed

lemma diffLoop_stepped:
  "diffLoop c p n i xs w = (r, w') \<Longrightarrow> stepped 3 w w'"
proof (induction xs arbitrary: i w)
  case Nil
  then show ?case by (simp add: stepped_refl)
next
  case (Cons st rest)
  let ?w1 = "changeLine p
                 (''['' @ getString c ''sync.running.hint.diff'' @ ''] ''
                    @ showNat i @ ''/'' @ showNat n @ ''...'')
                 (Ratio (i - 1) n) w"
  let ?fp = "Path_join c (path st) (filename st)"
  let ?w2 = "record_call (ShowDiff (itemID st) ?fp) ?w1"
  have s2: "stepped 3 w ?w2"
    by (rule stepped_trans [OF stepped_changeLine stepped_record_call]) simp
  show ?case
  proof (cases "onShowSyncDiff c (itemID st) ?fp (hostData ?w2)")
    case (Inl e)
    with Cons.prems s2 show ?thesis by (simp add: Let_def)
  next
    case (Inr h)
    with Cons.prems have "diffLoop c p n (i + 1) rest (?w2\<lparr>hostData := h\<rparr>) = (r, w')"
      by (simp add: Let_def)
    from Cons.IH [OF this] have s3: "stepped 3 (?w2\<lparr>hostData := h\<rparr>) w'" .
    show ?thesis by (rule stepped_trans [OF s2 stepped_trans [OF stepped_host s3]])
  qed
qed

lemma sorted_same_phase: "\<forall>x\<in>set es. phase x = k \<Longrightarrow> sorted (map phase es)"
  by (induction es) auto

lemma stepped_chain:
  assumes "stepped 0 w a" and "stepped 1 a b" and "stepped 2 b d" and "stepped 3 d e"
  shows "runs w e"
proof -
  from assms(1) obtain e0 u0 where a: "lock a = lock w" "env a = env w"
      "trace a = trace w @ e0" "\<forall>x\<in>set e0. phase x = 0" "ui a = ui w @ u0"
    unfolding stepped_def by blast
  from assms(2) obtain e1 u1 where b: "lock b = lock a" "env b = env a"
      "trace b = trace a @ e1" "\<forall>x\<in>set e1. phase x = 1" "ui b = ui a @ u1"
    unfolding stepped_def by blast
  from assms(3) obtain e2 u2 where d: "lock d = lock b" "env d = env b"
      "trace d = trace b @ e2" "\<forall>x\<in>set e2. phase x = 2" "ui d = ui b @ u2"
    unfolding stepped_def by blast
  from assms(4) obtain e3 u3 where e: "lock e = lock d" "env e = env d"
      "trace e = trace d @ e3" "\<forall>x\<in>set e3. phase x = 3" "ui e = ui d @ u3"
    unfolding stepped_def by blast
  have "sorted (map phase (e0 @ e1 @ e2 @ e3))"
    using a(4) b(4) d(4) e(4)
      sorted_same_phase [OF a(4)] sorted_same_phase [OF b(4)]
      sorted_same_phase [OF d(4)] sorted_same_phase [OF e(4)]
    by (auto simp add: sorted_append)
  moreover have "trace e = trace w @ (e0 @ e1 @ e2 @ e3)" using a b d e by simp
  moreover have "ui e = ui w @ (u0 @ u1 @ u2 @ u3)" using a b d e by simp
  ultimately show ?thesis unfolding runs_def using a b d e by metis
qed

lemma runPasses_runs:
  assumes "runPasses c opts items k w = (r, p, w')"
  shows "runs w w' \<and> r \<noteq> Returned \<and> p = (\<not> quiet opts)
     \<and> (\<not> quiet opts \<longrightarrow>
          ProgressWindow
            (''['' @ getString c ''sync.running.hint.title'' @ ''] ''
               @ (if env w = ''development'' then reason opts else ''Better Notes''))
            (''['' @ getString c ''sync.running.hint.check'' @ ''] 0/''
               @ showNat (length items) @ '' ...'')
            (Value 1) \<in> set (ui w'))"
proof -
  let ?pw = "ProgressWindow
            (''['' @ getString c ''sync.running.hint.title'' @ ''] ''
               @ (if env w = ''development'' then reason opts else ''Better Notes''))
            (''['' @ getString c ''sync.running.hint.check'' @ ''] 0/''
               @ showNat (length items) @ '' ...'')
            (Value 1)"
  let ?w1 = "w\<lparr>ui := ui w @ [LogStart (reason opts) (map item_id items) k]\<rparr>"
  let ?w2 = "if \<not> quiet opts then ?w1\<lparr>ui := ui ?w1 @ [?pw]\<rparr> else ?w1"
  have s02: "stepped 0 w ?w2" by (simp add: stepped_def)
  have pw2: "\<not> quiet opts \<longrightarrow> ?pw \<in> set (ui ?w2)" by simp
  obtain cr w3 where cl: "compareLoop c (\<not> quiet opts) (length items) 1 items
        \<lparr>toExport = [], toImport = [], toDiff = []\<rparr> ?w2 = (cr, w3)"
    by (cases "compareLoop c (\<not> quiet opts) (length items) 1 items
        \<lparr>toExport = [], toImport = [], toDiff = []\<rparr> ?w2")
  from compareLoop_stepped [OF cl] have s23: "stepped 0 ?w2 w3" by simp
  have s03: "stepped 0 w w3" by (rule stepped_trans [OF s02 s23])
  have pw3: "\<not> quiet opts \<longrightarrow> ?pw \<in> set (ui w3)"
    using pw2 stepped_in_ui [OF s23] by blast
  show ?thesis
  proof (cases cr)
    case (Inl e)
    with assms cl have eq: "r = Thrown e" "p = (\<not> quiet opts)" "w' = w3"
      by (simp_all add: runPasses_def Let_def split: if_splits)
    from stepped_chain [OF s03 stepped_refl stepped_refl stepped_refl] pw3 eq
    show ?thesis by simp
  next
    case (Inr b)
    let ?w4 = "w3\<lparr>ui := ui w3 @ [LogPlan b]\<rparr>"
    have s04: "stepped 0 w ?w4" by (rule stepped_trans [OF s03 stepped_ui])
    have pw4: "\<not> quiet opts \<longrightarrow> ?pw \<in> set (ui ?w4)" using pw3 by simp
    obtain er w5 where el: "exportLoop c (\<not> quiet opts) (length items) 1 (toExport b) ?w4 = (er, w5)"
      by (cases "exportLoop c (\<not> quiet opts) (length items) 1 (toExport b) ?w4")
    from exportLoop_stepped [OF el] have s45: "stepped 1 ?w4 w5" .
    have pw5: "\<not> quiet opts \<longrightarrow> ?pw \<in> set (ui w5)"
      using pw4 stepped_in_ui [OF s45] by blast
    show ?thesis
    proof (cases er)
      case (Some e)
      with assms cl Inr el have eq: "r = Thrown e" "p = (\<not> quiet opts)" "w' = w5"
        by (simp_all add: runPasses_def Let_def split: if_splits)
      from stepped_chain [OF s04 s45 stepped_refl stepped_refl] pw5 eq
      show ?thesis by simp
    next
      case None
      note eN = None
      obtain ir w6 where il: "importLoop c (\<not> quiet opts) (length (toImport b))
            (length (toDiff b)) 1 (toImport b) w5 = (ir, w6)"
        by (cases "importLoop c (\<not> quiet opts) (length (toImport b))
            (length (toDiff b)) 1 (toImport b) w5")
      from importLoop_stepped [OF il] have s56: "stepped 2 w5 w6" .
      have pw6: "\<not> quiet opts \<longrightarrow> ?pw \<in> set (ui w6)"
        using pw5 stepped_in_ui [OF s56] by blast
      show ?thesis
      proof (cases ir)
        case (Some e)
        with assms cl Inr el eN il have eq: "r = Thrown e" "p = (\<not> quiet opts)" "w' = w6"
          by (simp_all add: runPasses_def Let_def split: if_splits)
        from stepped_chain [OF s04 s45 s56 stepped_refl] pw6 eq
        show ?thesis by simp
      next
        case None
        note iN = None
        obtain dr w7 where dl: "diffLoop c (\<not> quiet opts) (length (toDiff b)) 1 (toDiff b) w6
              = (dr, w7)"
          by (cases "diffLoop c (\<not> quiet opts) (length (toDiff b)) 1 (toDiff b) w6")
        from diffLoop_stepped [OF dl] have s67: "stepped 3 w6 w7" .
        have pw7: "\<not> quiet opts \<longrightarrow> ?pw \<in> set (ui w7)"
          using pw6 stepped_in_ui [OF s67] by blast
        show ?thesis
        proof (cases dr)
          case (Some e)
          with assms cl Inr el eN il iN dl have eq: "r = Thrown e" "p = (\<not> quiet opts)" "w' = w7"
            by (simp_all add: runPasses_def Let_def split: if_splits)
          from stepped_chain [OF s04 s45 s56 s67] pw7 eq
          show ?thesis by simp
        next
          case None
          let ?w8 = "changeLine (\<not> quiet opts)
               (finishText c (length (toExport b) + length (toImport b) + length (toDiff b)) k)
               (Value 100) w7"
          from assms cl Inr el eN il iN dl None
          have eq: "r = Completed" "p = (\<not> quiet opts)" "w' = ?w8"
            by (simp_all add: runPasses_def Let_def split: if_splits)
          have s68: "stepped 3 w6 ?w8" by (rule stepped_trans [OF s67 stepped_changeLine])
          have pw8: "\<not> quiet opts \<longrightarrow> ?pw \<in> set (ui ?w8)"
            using pw7 stepped_in_ui [OF stepped_changeLine] by blast
          from stepped_chain [OF s04 s45 s56 s68] pw8 eq
          show ?thesis by simp
        qed
      qed
    qed
  qed
qed


lemma tryBody_returned:
  assumes "tryBody c items opts w = (Returned, p, w1)"
  shows "p = False \<and> w1 = w\<lparr>lock := False\<rparr> \<and> resolveItems (hostData w) items = []"
proof (cases "resolveItems (hostData w) items = []")
  case True
  with assms show ?thesis by (simp add: tryBody_def)
next
  case False
  with assms obtain its k where "runPasses c opts its k (w\<lparr>lock := True\<rparr>) = (Returned, p, w1)"
    by (auto simp add: tryBody_def Let_def split: if_splits)
  from runPasses_runs [OF this] show ?thesis by simp
qed

lemma tryBody_passes:
  assumes "tryBody c items opts w = (r, p, w1)" and "r \<noteq> Returned"
  shows "resolveItems (hostData w) items \<noteq> [] \<and>
         runPasses c opts (candidateItems (hostData w) items opts)
           (length (resolveItems (hostData w) items)
              - length (candidateItems (hostData w) items opts))
           (w\<lparr>lock := True\<rparr>) = (r, p, w1)"
  using assms
  by (auto simp add: tryBody_def Let_def candidateItems_def split: if_splits)

lemma callSyncing_result:
  assumes "\<not> lock w"
  shows "\<exists>r p w1 us.
     tryBody c items (opts\<lparr>quiet := (if env w = ''development'' then False else quiet opts)\<rparr>) w
       = (r, p, w1)
     \<and> callSyncing c items opts w = (Inr (), w1\<lparr>lock := False, ui := ui w1 @ us\<rparr>)"
proof -
  let ?o = "opts\<lparr>quiet := (if env w = ''development'' then False else quiet opts)\<rparr>"
  obtain r p w1 where tb: "tryBody c items ?o w = (r, p, w1)"
    by (cases "tryBody c items ?o w")
  show ?thesis
  proof (cases r)
    case Completed
    with tb assms have "callSyncing c items opts w
        = (Inr (), w1\<lparr>lock := False, ui := ui w1 @ (if p then [StartCloseTimer 5000] else [])\<rparr>)"
      by (simp add: callSyncing_def Let_def)
    with tb show ?thesis by blast
  next
    case Returned
    from tryBody_returned [OF tb [unfolded Returned]] have "w1 = w1\<lparr>lock := False\<rparr>" by simp
    with tb Returned assms have "callSyncing c items opts w
        = (Inr (), w1\<lparr>lock := False, ui := ui w1 @ (if p then [StartCloseTimer 5000] else [])\<rparr>)"
      by (simp add: callSyncing_def Let_def)
    with tb show ?thesis by blast
  next
    case (Thrown e)
    with tb assms have "callSyncing c items opts w
        = (Inr (), w1\<lparr>lock := False,
             ui := ui w1 @ (LogError e # (if p then [StartCloseTimer 5000] else []))\<rparr>)"
      by (simp add: callSyncing_def Let_def)
    with tb show ?thesis by blast
  qed
qed

lemma candidateItems_quiet [simp]:
  "candidateItems h items (opts\<lparr>quiet := q\<rparr>) = candidateItems h items opts"
  by (simp add: candidateItems_def)

lemma callSyncing_handlers_returning:
  "callSyncing_handlers (\<lambda>e. None) (\<lambda>ms. None) c items opts w = callSyncing c items opts w"
  by (simp add: callSyncing_handlers_def callSyncing_def Let_def
      split: prod.splits completion.splits)

text \<open>The definitions a concrete run unfolds.\<close>

lemmas run_defs = callSyncing_def tryBody_def runPasses_def resolveItems_def filteredItems_def
  activeNoteIds_def Items_get_def Items_get1_def getSyncNoteIds_def isSyncNote_def
  getSyncStatus_def doCompare_def addResult_def changeLine_def record_call_def
  demo_collab_def demo_getMDStatus_def demo_world_def auto_options_def List.map_filter_def
  Let_def

subsection \<open>The claims\<close>

text \<open>
  C2. When the lock is held at the call, \<open>callSyncing\<close> returns at once: it returns
  normally and the whole state is as before, so no comparison and no dispatch call is
  made, and the sync-status store and the lock are unchanged.
\<close>

theorem callSyncing_lock_held:
  "lock w \<Longrightarrow> callSyncing c items opts w = (Inr (), w)"
  by (simp add: callSyncing_def)

theorem callSyncing_lock_held_witness:
  "lock (demo_world ''production'' True demo_host3)
   \<and> callSyncing demo_collab [] auto_options (demo_world ''production'' True demo_host3)
       = (Inr (), demo_world ''production'' True demo_host3)"
proof -
  have l: "lock (demo_world ''production'' True demo_host3)" by (simp add: demo_world_def)
  from callSyncing_lock_held [OF l] l show ?thesis by simp
qed




text \<open>
  C4. In every run the calls come in the order of the passes: all comparisons, then all
  batched exports, then all imports (each \<open>fromMD\<close> with the refresh of its file), then all
  conflict resolutions. The calls a run adds to the trace are sorted by pass, over the
  whole batch, also when the run ends on an error.
\<close>

theorem callSyncing_phase_order:
  "let w' = snd (callSyncing c items opts w);
       newCalls = drop (length (trace w)) (trace w')
   in trace w' = trace w @ newCalls \<and> sorted (map phase newCalls)"
proof (cases "lock w")
  case True
  then show ?thesis by (simp add: callSyncing_def)
next
  case False
  let ?o = "opts\<lparr>quiet := (if env w = ''development'' then False else quiet opts)\<rparr>"
  from callSyncing_result [OF False, of c items opts]
  obtain r p w1 us where tb: "tryBody c items ?o w = (r, p, w1)"
    and cs: "callSyncing c items opts w = (Inr (), w1\<lparr>lock := False, ui := ui w1 @ us\<rparr>)"
    by blast
  have "\<exists>es. trace w1 = trace w @ es \<and> sorted (map phase es)"
  proof (cases "r = Returned")
    case True
    with tryBody_returned [of c items ?o w p w1] tb show ?thesis by simp
  next
    case False
    from tryBody_passes [OF tb False] runPasses_runs show ?thesis
      by (fastforce simp add: runs_def)
  qed
  then obtain es where "trace w1 = trace w @ es" and "sorted (map phase es)" by blast
  with cs show ?thesis by (simp add: Let_def)
qed

theorem callSyncing_phase_order_witness:
  "trace (snd (callSyncing demo_collab [] auto_options
                 (demo_world ''production'' False demo_host3)))
     = [Compare 1, Compare 2, Compare 3, ExportBatch ''d'' [1], Import ''d/b.md'' 2,
        Refresh ''d'' 2, ShowDiff 3 ''d/c.md'']
   \<and> sorted (map phase
        (drop (length (trace (demo_world ''production'' False demo_host3)))
           (trace (snd (callSyncing demo_collab [] auto_options
                          (demo_world ''production'' False demo_host3))))))"
proof -
  have t: "trace (snd (callSyncing demo_collab [] auto_options
                 (demo_world ''production'' False demo_host3)))
     = [Compare 1, Compare 2, Compare 3, ExportBatch ''d'' [1], Import ''d/b.md'' 2,
        Refresh ''d'' 2, ShowDiff 3 ''d/c.md'']"
    by (simp add: run_defs demo_host3_def)
  from callSyncing_phase_order
         [of demo_collab "[]" auto_options "demo_world ''production'' False demo_host3"]
  have "sorted (map phase
        (drop (length (trace (demo_world ''production'' False demo_host3)))
           (trace (snd (callSyncing demo_collab [] auto_options
                          (demo_world ''production'' False demo_host3))))))"
    by (simp only: Let_def)
  with t show ?thesis by (rule conjI)
qed



text \<open>
  C9. In the development environment the \<open>quiet\<close> option of the caller has no effect:
  the call behaves as with \<open>quiet = false\<close>. So a run that finds the lock free and resolves
  a non-empty list of notes opens the progress window, with the reason in its title, also
  for the \<open>quiet = true\<close> calls of the scheduler.
\<close>

theorem callSyncing_development:
  assumes "env w = ''development''"
  shows "callSyncing c items opts w = callSyncing c items (opts\<lparr>quiet := False\<rparr>) w
     \<and> (\<not> lock w \<and> resolveItems (hostData w) items \<noteq> [] \<longrightarrow>
          ProgressWindow
            (''['' @ getString c ''sync.running.hint.title'' @ ''] '' @ reason opts)
            (''['' @ getString c ''sync.running.hint.check'' @ ''] 0/''
               @ showNat (length (candidateItems (hostData w) items opts)) @ '' ...'')
            (Value 1)
          \<in> set (ui (snd (callSyncing c items opts w))))"
proof (intro conjI impI)
  show "callSyncing c items opts w = callSyncing c items (opts\<lparr>quiet := False\<rparr>) w"
    using assms by (simp add: callSyncing_def)
next
  assume a: "\<not> lock w \<and> resolveItems (hostData w) items \<noteq> []"
  let ?o = "opts\<lparr>quiet := (if env w = ''development'' then False else quiet opts)\<rparr>"
  from a callSyncing_result [of w c items opts]
  obtain r p w1 us where tb: "tryBody c items ?o w = (r, p, w1)"
    and cs: "callSyncing c items opts w = (Inr (), w1\<lparr>lock := False, ui := ui w1 @ us\<rparr>)"
    by blast
  have nr: "r \<noteq> Returned"
  proof
    assume "r = Returned"
    with tryBody_returned [of c items ?o w p w1] tb a show False by simp
  qed
  from runPasses_runs [OF conjunct2 [OF tryBody_passes [OF tb nr]]] assms
  have "ProgressWindow
            (''['' @ getString c ''sync.running.hint.title'' @ ''] '' @ reason opts)
            (''['' @ getString c ''sync.running.hint.check'' @ ''] 0/''
               @ showNat (length (candidateItems (hostData w) items opts)) @ '' ...'')
            (Value 1) \<in> set (ui w1)"
    by simp
  with cs show "ProgressWindow
            (''['' @ getString c ''sync.running.hint.title'' @ ''] '' @ reason opts)
            (''['' @ getString c ''sync.running.hint.check'' @ ''] 0/''
               @ showNat (length (candidateItems (hostData w) items opts)) @ '' ...'')
            (Value 1) \<in> set (ui (snd (callSyncing c items opts w)))"
    by simp
qed

theorem callSyncing_development_witness:
  "env (demo_world ''development'' False (demo_host 3)) = ''development''
   \<and> quiet auto_options
   \<and> \<not> lock (demo_world ''development'' False (demo_host 3))
   \<and> resolveItems (hostData (demo_world ''development'' False (demo_host 3))) [] \<noteq> []
   \<and> callSyncing demo_collab [] auto_options (demo_world ''development'' False (demo_host 3))
       = callSyncing demo_collab [] (auto_options\<lparr>quiet := False\<rparr>)
           (demo_world ''development'' False (demo_host 3))
   \<and> ProgressWindow ''[sync.running.hint.title] auto'' ''[sync.running.hint.check] 0/1 ...''
        (Value 1)
       \<in> set (ui (snd (callSyncing demo_collab [] auto_options
                     (demo_world ''development'' False (demo_host 3)))))"
proof -
  have e: "env (demo_world ''development'' False (demo_host 3)) = ''development''"
    by (simp add: demo_world_def)
  have q: "quiet auto_options" by (simp add: auto_options_def)
  have l: "\<not> lock (demo_world ''development'' False (demo_host 3))"
    by (simp add: demo_world_def)
  have r: "resolveItems (hostData (demo_world ''development'' False (demo_host 3))) []
       = [demo_item 3]"
    by (simp add: run_defs demo_host_def demo_item_def)
  have k: "candidateItems (hostData (demo_world ''development'' False (demo_host 3))) []
        auto_options = [demo_item 3]"
    by (simp add: candidateItems_def run_defs demo_host_def demo_item_def)
  have s: "showNat (Suc 0) = ''1''" by (simp add: showNat.simps)
  have g: "getString demo_collab = (\<lambda>k. k)" by (simp add: demo_collab_def)
  have a: "reason auto_options = ''auto''" by (simp add: auto_options_def)
  have nr: "resolveItems (hostData (demo_world ''development'' False (demo_host 3))) [] \<noteq> []"
    using r by simp
  note dev = callSyncing_development [OF e, of demo_collab "[]" auto_options]
  have c1: "callSyncing demo_collab [] auto_options (demo_world ''development'' False (demo_host 3))
       = callSyncing demo_collab [] (auto_options\<lparr>quiet := False\<rparr>)
           (demo_world ''development'' False (demo_host 3))"
    using dev by (rule conjunct1)
  have c2: "ProgressWindow ''[sync.running.hint.title] auto'' ''[sync.running.hint.check] 0/1 ...''
        (Value 1)
       \<in> set (ui (snd (callSyncing demo_collab [] auto_options
                     (demo_world ''development'' False (demo_host 3)))))"
    using conjunct2 [OF dev] l r k s g a by simp
  from e q l nr c1 c2 show ?thesis by blast
qed

section \<open>The scheduler after teardown\<close>

text \<open>
  C7. After teardown a tick is meant to cancel the timer and to trigger no sync. On the
  torn-down scheduler with the window focused and a positive period, the tick shows the
  stop hint and clears the timer, and then still issues the \<open>callSyncing\<close> call: the
  callback does not return after \<open>clearInterval\<close>. No later tick does anything.
\<close>

theorem tick_after_teardown:
  "timer (tick demo_collab demo_scheduler) = None
   \<and> hints (tick demo_collab demo_scheduler) = [''sync.stop.hint'']
   \<and> syncCalls (tick demo_collab demo_scheduler)
       = [\<lparr>quiet = True, skipActive = True, reason = ''auto''\<rparr>]
   \<and> tick demo_collab (tick demo_collab demo_scheduler) = tick demo_collab demo_scheduler"
  by (simp add: tick_def timerCallback_def demo_scheduler_def demo_collab_def)

section \<open>Properties of the enrolment\<close>

lemma store_toSync_other:
  "j \<noteq> item_id n \<Longrightarrow> map_of (syncStore (toSync c n d ov h)) j = map_of (syncStore h) j"
  by (simp add: toSync_def updateSyncStatus_def update_conv')

lemma store_toSync_keep:
  "map_of (syncStore h) j = Some r \<Longrightarrow> map_of (syncStore (toSync c n d False h)) j = Some r"
  by (auto simp add: toSync_def updateSyncStatus_def update_conv' isSyncNote_def)

lemma store_toSync_reset:
  "\<exists>r. map_of (syncStore (toSync c n d True h)) (item_id n) = Some r \<and> resetRecord d (item_id n) r"
  by (simp add: toSync_def updateSyncStatus_def update_conv' resetRecord_def)

lemma fold_toSync_other:
  "j \<notin> item_id ` set ns \<Longrightarrow>
     map_of (syncStore (fold (\<lambda>n. toSync c n d ov) ns h)) j = map_of (syncStore h) j"
  by (induction ns arbitrary: h) (simp_all add: store_toSync_other)

lemma fold_toSync_keep:
  "map_of (syncStore h) j = Some r \<Longrightarrow>
     map_of (syncStore (fold (\<lambda>n. toSync c n d False) ns h)) j = Some r"
  by (induction ns arbitrary: h) (simp_all add: store_toSync_keep)

lemma fold_toSync_reset:
  "(\<exists>r. map_of (syncStore h) j = Some r \<and> resetRecord d j r) \<or> j \<in> item_id ` set ns \<Longrightarrow>
     \<exists>r. map_of (syncStore (fold (\<lambda>n. toSync c n d True) ns h)) j = Some r \<and> resetRecord d j r"
proof (induction ns arbitrary: h)
  case Nil
  then show ?case by simp
next
  case (Cons n ns)
  have "(\<exists>r. map_of (syncStore (toSync c n d True h)) j = Some r \<and> resetRecord d j r)
        \<or> j \<in> item_id ` set ns"
  proof (cases "j = item_id n")
    case True
    with store_toSync_reset [of c n d h] show ?thesis by simp
  next
    case False
    with Cons.prems show ?thesis by (auto simp add: store_toSync_other)
  qed
  from Cons.IH [OF this] show ?case by simp
qed

lemma Items_get1_id: "Items_get1 h i = Some x \<Longrightarrow> item_id x = i"
  by (auto simp add: Items_get1_def find_Some_iff)

lemma Items_get_ids: "x \<in> set (Items_get h ids) \<Longrightarrow> item_id x \<in> set ids"
  by (auto simp add: Items_get_def List.map_filter_def dest: Items_get1_id)

lemma linkedNoteItems_disjoint:
  "l \<in> set (linkedNoteItems h sl inputs ids) \<Longrightarrow> item_id l \<notin> item_id ` set inputs"
  by (auto simp add: linkedNoteItems_def Let_def dest!: Items_get_ids split: if_splits)

text \<open>
  C10. \<open>toSync\<close> with \<open>overwrite = false\<close> on a note under sync changes nothing. In the
  other cases (\<open>overwrite = true\<close>, or a note not yet under sync) it writes the record of
  the note: the given directory, the chosen file name, an empty file checksum, the
  checksum of the note's content and last sync 0. The records of all other notes stay as
  they are. So the enrolment of \<open>exportNotes\<close> leaves the record of every linked note that
  was under sync as it was, and leaves every input note with a reset record.
\<close>

theorem toSync_frame:
  "(\<not> overwrite \<and> isSyncNote h (item_id n) \<longrightarrow> toSync c n d overwrite h = h)
   \<and> (overwrite \<or> \<not> isSyncNote h (item_id n) \<longrightarrow>
        getSyncStatus (toSync c n d overwrite h) (item_id n)
          = Inr \<lparr>path = d, filename = getMDFileName c h (item_id n) d, md5 = [],
                 noteMd5 = Internal_md5 c (getNote n), lastsync = 0, itemID = item_id n\<rparr>)
   \<and> (\<forall>j. j \<noteq> item_id n \<longrightarrow> getSyncStatus (toSync c n d overwrite h) j = getSyncStatus h j)
   \<and> (\<forall>l \<in> set (linkedNoteItems h standaloneLink inputs linkedIds).
        isSyncNote h (item_id l) \<longrightarrow>
          getSyncStatus (exportNotes_enrol c inputs standaloneLink linkedIds d h) (item_id l)
            = getSyncStatus h (item_id l))
   \<and> (\<forall>i \<in> set inputs. \<exists>r.
          getSyncStatus (exportNotes_enrol c inputs standaloneLink linkedIds d h) (item_id i) = Inr r
          \<and> resetRecord d (item_id i) r)"
proof (intro conjI impI ballI allI)
  assume "\<not> overwrite \<and> isSyncNote h (item_id n)"
  then show "toSync c n d overwrite h = h" by (simp add: toSync_def)
next
  assume "overwrite \<or> \<not> isSyncNote h (item_id n)"
  then show "getSyncStatus (toSync c n d overwrite h) (item_id n)
          = Inr \<lparr>path = d, filename = getMDFileName c h (item_id n) d, md5 = [],
                 noteMd5 = Internal_md5 c (getNote n), lastsync = 0, itemID = item_id n\<rparr>"
    by (auto simp add: toSync_def getSyncStatus_def updateSyncStatus_def update_conv')
next
  fix j assume "j \<noteq> item_id n"
  then show "getSyncStatus (toSync c n d overwrite h) j = getSyncStatus h j"
    by (simp add: getSyncStatus_def store_toSync_other)
next
  fix l assume l: "l \<in> set (linkedNoteItems h standaloneLink inputs linkedIds)"
    and s: "isSyncNote h (item_id l)"
  from s obtain r where r: "map_of (syncStore h) (item_id l) = Some r"
    by (auto simp add: isSyncNote_def)
  from linkedNoteItems_disjoint [OF l]
  have "map_of (syncStore (fold (\<lambda>n. toSync c n d True) inputs h)) (item_id l) = Some r"
    by (simp add: fold_toSync_other r)
  from fold_toSync_keep [OF this]
  show "getSyncStatus (exportNotes_enrol c inputs standaloneLink linkedIds d h) (item_id l)
            = getSyncStatus h (item_id l)"
    by (simp add: getSyncStatus_def exportNotes_enrol_def Let_def r)
next
  fix i assume "i \<in> set inputs"
  then have "(\<exists>r. map_of (syncStore h) (item_id i) = Some r \<and> resetRecord d (item_id i) r)
      \<or> item_id i \<in> item_id ` set inputs" by simp
  from fold_toSync_reset [OF this] obtain r where
    r: "map_of (syncStore (fold (\<lambda>n. toSync c n d True) inputs h)) (item_id i) = Some r"
    and p: "resetRecord d (item_id i) r" by blast
  from fold_toSync_keep [OF r] p
  show "\<exists>r. getSyncStatus (exportNotes_enrol c inputs standaloneLink linkedIds d h) (item_id i) = Inr r
          \<and> resetRecord d (item_id i) r"
    by (simp add: getSyncStatus_def exportNotes_enrol_def Let_def)
qed

theorem toSync_frame_witness:
  "isSyncNote (demo_host 3) (item_id (demo_item 3))
   \<and> toSync demo_collab (demo_item 3) ''e'' False (demo_host 3) = demo_host 3
   \<and> getSyncStatus (toSync demo_collab (demo_item 3) ''e'' True (demo_host 3)) 1
       = Inr \<lparr>path = ''e'', filename = ''note.md'', md5 = [], noteMd5 = ''text'',
              lastsync = 0, itemID = 1\<rparr>
   \<and> linkedNoteItems (demo_host 3) True [demo_item2] [1, 2] = [demo_item 3]
   \<and> getSyncStatus (exportNotes_enrol demo_collab [demo_item2] True [1, 2] ''e'' (demo_host 3)) 1
       = Inr demo_record
   \<and> (\<exists>r. getSyncStatus
             (exportNotes_enrol demo_collab [demo_item2] True [1, 2] ''e'' (demo_host 3)) 2 = Inr r
          \<and> resetRecord ''e'' 2 r)"
proof -
  have s: "isSyncNote (demo_host 3) (item_id (demo_item 3))"
    by (simp add: isSyncNote_def demo_host_def demo_item_def)
  have k: "linkedNoteItems (demo_host 3) True [demo_item2] [1, 2] = [demo_item 3]"
    by (simp add: linkedNoteItems_def Items_get_def Items_get1_def List.map_filter_def
        demo_host_def demo_item_def demo_item2_def)
  have g: "getSyncStatus (demo_host 3) 1 = Inr demo_record"
    by (simp add: getSyncStatus_def demo_host_def)
  have i: "item_id (demo_item 3) = 1" "item_id demo_item2 = 2"
      "getNote (demo_item 3) = ''text''"
    by (simp_all add: demo_item_def demo_item2_def)
  have c: "getMDFileName demo_collab = (\<lambda>h noteId dir. ''note.md'')"
      "Internal_md5 demo_collab = (\<lambda>s. s)"
    by (simp_all add: demo_collab_def)
  from toSync_frame [of False "demo_host 3" "demo_item 3" demo_collab "''e''" True
                        "[demo_item2]" "[1, 2]"]
       toSync_frame [of True "demo_host 3" "demo_item 3" demo_collab "''e''" True
                        "[demo_item2]" "[1, 2]"]
       s k g i c
  show ?thesis by simp
qed


end
